theory Spec2Isabelle
  imports Complex_Main "HOL-Library.Log_Nat"
begin

section \<open>Heart rate variability metrics of \<^verbatim>\<open>hrv.py\<close>\<close>

text \<open>
  The script reads one csv file per person (columns \<^verbatim>\<open>time\<close> and \<^verbatim>\<open>type\<close>), derives the
  beat-to-beat intervals with pandas column operations, keeps the intervals between two
  normal beats and computes seven numbers from them.

  Numbers: a finite float64 is the real number it denotes, and \<open>NaN\<close> is a value of its
  own, since the control flow depends on it (\<^verbatim>\<open>int(nan)\<close> raises). The elementwise
  operations that the source writes out (the subtractions of lines 89 and 98, the square
  of line 101, the divisions and the product of lines 114, 120 and 121, the square root
  and the scaling inside \<^verbatim>\<open>np.round\<close>) round their exact result to the nearest float64,
  ties to even. The two reductions \<^verbatim>\<open>mean\<close> and \<^verbatim>\<open>std\<close> are pandas': the order in which
  they add is not fixed by the source, and they are taken exact. The value of
  \<^verbatim>\<open>np.round\<close> to one decimal is the decimal it prints. Overflow and subnormal numbers
  are outside the model.
\<close>

subsection \<open>Values\<close>

text \<open>The exceptions the body of \<^verbatim>\<open>calculate_HRV_metrics\<close> can raise on a parsed file.\<close>

datatype exn = TypeError | ValueError | ZeroDivisionError

text \<open>
  A cell of the \<^verbatim>\<open>time\<close> column as \<^verbatim>\<open>read_csv\<close> delivers it: a number; a missing value
  (an empty field, read as NaN); or the text of the field when it is no number.
\<close>

datatype cell = Num real | Missing | Text string

text \<open>
  A parsed file: one (time, type) pair per line. A missing \<^verbatim>\<open>type\<close> field is \<open>None\<close>
  (pandas reads an empty field as NaN, never as the empty string).
\<close>

type_synonym hrv_data = "(cell \<times> string option) list"

datatype npfloat = NaN | Fin real

text \<open>The dictionary \<^verbatim>\<open>results\<close>; Python's \<^verbatim>\<open>None\<close> is \<open>None\<close>.\<close>

record results =
  filename :: string
  n :: nat
  mean_nn :: "int option"
  mean_bpm :: "npfloat option"
  sdnn :: "npfloat option"
  rmssd :: "npfloat option"
  pnn20 :: "npfloat option"
  pnn50 :: "npfloat option"

subsection \<open>Float64 arithmetic\<close>

text \<open>Rounding to the nearest integer, a tie going to the even neighbour (as numpy rounds).\<close>

definition rint :: "real \<Rightarrow> int" where
  "rint x = (let f = \<lfloor>x\<rfloor>; r = x - of_int f in
     if r < 1 / 2 then f else if 1 / 2 < r then f + 1
     else if even f then f else f + 1)"

text \<open>
  The binary exponent of a number that is not 0, that is the integer \<open>e\<close> with
  \<open>2 ^ e \<le> \<bar>x\<bar> < 2 ^ (e + 1)\<close>, read from the bit length of the integer part (of the
  inverse, below 1); and the distance between neighbouring float64 numbers of that exponent
  (53 significant bits). Subnormal numbers and overflow are not modelled.
\<close>

definition exponent :: "real \<Rightarrow> int" where
  "exponent x = (if 1 \<le> \<bar>x\<bar> then bitlen \<lfloor>\<bar>x\<bar>\<rfloor> - 1 else - bitlen (\<lceil>1 / \<bar>x\<bar>\<rceil> - 1))"

definition ulp :: "real \<Rightarrow> real" where
  "ulp x = 2 powi (exponent x - 52)"

text \<open>The float64 nearest to a real number, ties to even.\<close>

definition fl :: "real \<Rightarrow> real" where
  "fl x = (if x = 0 then 0 else of_int (rint (x / ulp x)) * ulp x)"

definition fsub :: "real \<Rightarrow> real \<Rightarrow> real" where
  "fsub a b = fl (a - b)"

definition fmul :: "real \<Rightarrow> real \<Rightarrow> real" where
  "fmul a b = fl (a * b)"

definition fdiv :: "real \<Rightarrow> real \<Rightarrow> real" where
  "fdiv a b = fl (a / b)"

subsection \<open>Column operations\<close>

text \<open>
  A column is a list of optional values, \<open>None\<close> for a missing value.
  \<^verbatim>\<open>shift(-1)\<close> moves every value one row up and leaves the last row missing.
\<close>

fun shift :: "'a option list \<Rightarrow> 'a option list" where
  "shift [] = []"
| "shift (x # xs) = xs @ [None]"

fun sub :: "real option \<Rightarrow> real option \<Rightarrow> real option" where
  "sub (Some a) (Some b) = Some (fsub a b)"
| "sub _ _ = None"

fun add :: "string option \<Rightarrow> string option \<Rightarrow> string option" where
  "add (Some a) (Some b) = Some (a @ b)"
| "add _ _ = None"

text \<open>\<^verbatim>\<open>dropna\<close>, which \<^verbatim>\<open>mean\<close> and \<^verbatim>\<open>std\<close> of a pandas Series apply first.\<close>

fun dropna :: "'a option list \<Rightarrow> 'a list" where
  "dropna [] = []"
| "dropna (None # xs) = dropna xs"
| "dropna (Some x # xs) = x # dropna xs"

definition mean :: "real option list \<Rightarrow> npfloat" where
  "mean xs = (let vs = dropna xs in
     if vs = [] then NaN else Fin (sum_list vs / real (length vs)))"

text \<open>\<^verbatim>\<open>np.std(s, ddof=1)\<close>: the sample standard deviation, NaN for fewer than two values.\<close>

definition std :: "real option list \<Rightarrow> npfloat" where
  "std xs = (let vs = dropna xs; k = length vs in
     if k \<le> 1 then NaN
     else let mu = sum_list vs / real k in
       Fin (sqrt (sum_list (map (\<lambda>x. (x - mu)\<^sup>2) vs) / real (k - 1))))"

text \<open>
  \<^verbatim>\<open>np.round\<close>: to the nearest integer for no decimals; otherwise the value is scaled by
  a power of ten, rounded to the nearest integer and scaled back.
\<close>

definition np_round :: "npfloat \<Rightarrow> nat \<Rightarrow> npfloat" where
  "np_round x decimals = (case x of NaN \<Rightarrow> NaN
     | Fin v \<Rightarrow>
        if decimals = 0 then Fin (of_int (rint v))
        else Fin (of_int (rint (fmul v (10 ^ decimals))) / 10 ^ decimals))"

definition np_sqrt :: "npfloat \<Rightarrow> npfloat" where
  "np_sqrt x = (case x of NaN \<Rightarrow> NaN | Fin v \<Rightarrow> if v < 0 then NaN else Fin (fl (sqrt v)))"

text \<open>\<^verbatim>\<open>int(x)\<close> truncates towards zero and raises ValueError on NaN.\<close>

definition py_int :: "npfloat \<Rightarrow> exn + int" where
  "py_int x = (case x of NaN \<Rightarrow> Inl ValueError
     | Fin v \<Rightarrow> Inr (if 0 \<le> v then \<lfloor>v\<rfloor> else \<lceil>v\<rceil>))"

text \<open>\<^verbatim>\<open>np.sum(np.abs(col) > thr)\<close>: a missing value compares false.\<close>

definition count_abs_gt :: "real \<Rightarrow> real option list \<Rightarrow> nat" where
  "count_abs_gt thr col =
     length (filter (\<lambda>d. case d of None \<Rightarrow> False | Some v \<Rightarrow> thr < \<bar>v\<bar>) col)"

subsection \<open>The data frame\<close>

record hrv_row =
  time :: "real option"
  type :: "string option"
  time_next :: "real option"
  type_next :: "string option"
  rr :: "real option"
  rr_type :: "string option"
  rr_next :: "real option"
  diff :: "real option"
  diff_squared :: "real option"
  rr_next_type :: "string option"

text \<open>
  Lines 83 to 104: every derived column is computed over the whole frame, then the rows
  are read off. All columns have the length of the file.
\<close>

definition hrv_frame :: "real option list \<Rightarrow> string option list \<Rightarrow> hrv_row list" where
  "hrv_frame time_col type_col = (let
     time_next_col = shift time_col;
     type_next_col = shift type_col;
     rr_col = map2 sub time_next_col time_col;
     rr_type_col = map2 add type_col type_next_col;
     rr_next_col = shift rr_col;
     diff_col = map2 sub rr_col rr_next_col;
     diff_squared_col = map (map_option (\<lambda>d. fmul d d)) diff_col;
     rr_next_type_col = shift rr_type_col
   in map (\<lambda>i. \<lparr>time = time_col ! i, type = type_col ! i,
                 time_next = time_next_col ! i, type_next = type_next_col ! i,
                 rr = rr_col ! i, rr_type = rr_type_col ! i,
                 rr_next = rr_next_col ! i, diff = diff_col ! i,
                 diff_squared = diff_squared_col ! i,
                 rr_next_type = rr_next_type_col ! i\<rparr>) [0..<length time_col])"

text \<open>
  The \<^verbatim>\<open>time\<close> column as the subtraction of line 89 takes it. When every field that
  is present parsed as a number, it is a float64 column, NaN where the field is missing.
  Otherwise the cells are strings: pandas subtracts them on the lines where the beat and
  the next beat both have a time, which raises TypeError when there is such a line; when
  there is none, every interval is NaN, as for a column of NaN.
\<close>

fun is_text :: "cell \<Rightarrow> bool" where
  "is_text (Text s) = True"
| "is_text (Num r) = False"
| "is_text Missing = False"

fun present :: "cell \<Rightarrow> bool" where
  "present Missing = False"
| "present (Num r) = True"
| "present (Text s) = True"

fun adjacent_present :: "cell list \<Rightarrow> bool" where
  "adjacent_present (a # b # cs) = (present a \<and> present b \<or> adjacent_present (b # cs))"
| "adjacent_present [a] = False"
| "adjacent_present [] = False"

fun cell_value :: "cell \<Rightarrow> real option" where
  "cell_value (Num r) = Some r"
| "cell_value Missing = None"
| "cell_value (Text s) = None"

definition time_column :: "cell list \<Rightarrow> exn + real option list" where
  "time_column cs =
     (if list_ex is_text cs
      then if adjacent_present cs then Inl TypeError else Inr (map (\<lambda>c. None) cs)
      else Inr (map cell_value cs))"

subsection \<open>The metrics\<close>

text \<open>The local variables of lines 110 to 121, before the dictionary is filled.\<close>

record hrv_values =
  val_n :: nat
  val_mean_nn :: int
  val_mean_bpm :: npfloat
  val_sdnn :: npfloat
  val_rmssd :: npfloat
  val_pnn50 :: npfloat
  val_pnn20 :: npfloat

definition nn_rows :: "hrv_row list \<Rightarrow> hrv_row list" where
  "nn_rows df = filter (\<lambda>r. rr_type r = Some ''NN'') df"

definition nn_next_rows :: "hrv_row list \<Rightarrow> hrv_row list" where
  "nn_next_rows df = filter (\<lambda>r. rr_next_type r = Some ''NN'') df"

definition pnn :: "real \<Rightarrow> hrv_row list \<Rightarrow> nat \<Rightarrow> npfloat" where
  "pnn thr hrv_rr_df k =
     np_round (Fin (fdiv (100 * real (count_abs_gt thr (map diff hrv_rr_df))) (real k))) 1"

text \<open>Lines 83 to 121. The division of line 114 is Python's and raises on zero.\<close>

definition compute :: "hrv_data \<Rightarrow> exn + hrv_values" where
  "compute data =
     (case time_column (map fst data) of
        Inl e \<Rightarrow> Inl e
      | Inr time_col \<Rightarrow>
         (let hrv_df = nn_rows (hrv_frame time_col (map snd data));
              k = length hrv_df
          in (case py_int (np_round (mean (map rr hrv_df)) 0) of
                Inl e \<Rightarrow> Inl e
              | Inr m \<Rightarrow>
                 (if m = 0 then Inl ZeroDivisionError
                  else (let hrv_rr_df = nn_next_rows hrv_df in
                    Inr \<lparr>val_n = k,
                         val_mean_nn = m,
                         val_mean_bpm = np_round (Fin (fmul (fdiv 1000 (of_int m)) 60)) 1,
                         val_sdnn = np_round (std (map rr hrv_df)) 1,
                         val_rmssd =
                           np_round (np_sqrt (mean (map diff_squared hrv_rr_df))) 1,
                         val_pnn50 = pnn 50 hrv_rr_df k,
                         val_pnn20 = pnn 20 hrv_rr_df k\<rparr>)))))"

text \<open>Lines 124 to 144: the dictionary, with the numbers only from 500 intervals on.\<close>

definition fill_results :: "string \<Rightarrow> hrv_values \<Rightarrow> results" where
  "fill_results file_in v =
     (if 500 \<le> val_n v
      then \<lparr>filename = file_in, n = val_n v, mean_nn = Some (val_mean_nn v),
            mean_bpm = Some (val_mean_bpm v), sdnn = Some (val_sdnn v),
            rmssd = Some (val_rmssd v), pnn20 = Some (val_pnn20 v),
            pnn50 = Some (val_pnn50 v)\<rparr>
      else \<lparr>filename = file_in, n = val_n v, mean_nn = None, mean_bpm = None,
            sdnn = None, rmssd = None, pnn20 = None, pnn50 = None\<rparr>)"

text \<open>
  The function itself. The dataset directory is a map from file names to parsed files.
  A name that is no file prints a message and falls off the end of the function; an
  exception is caught, printed and falls off the end as well: both return \<^verbatim>\<open>None\<close>.
\<close>

definition calculate_HRV_metrics :: "(string \<rightharpoonup> hrv_data) \<Rightarrow> string \<Rightarrow> results option" where
  "calculate_HRV_metrics dataset_dir file_in =
     (case dataset_dir file_in of None \<Rightarrow> None
      | Some data \<Rightarrow>
        (case compute data of Inl e \<Rightarrow> None
         | Inr v \<Rightarrow> Some (fill_results file_in v)))"

subsection \<open>The batch\<close>

definition endswith :: "string \<Rightarrow> string \<Rightarrow> bool" where
  "endswith s suf = (length suf \<le> length s \<and> drop (length s - length suf) s = suf)"

text \<open>
  The loop of lines 191 to 205, with the list \<^verbatim>\<open>hrv_results\<close> as its state. What the
  function returns here is the list it hands to \<^verbatim>\<open>pd.DataFrame\<close>; building the table and
  writing it are pandas' and outside the model.
\<close>

fun hrv_loop ::
  "(string \<rightharpoonup> hrv_data) \<Rightarrow> string list \<Rightarrow> results option list \<Rightarrow> results option list" where
  "hrv_loop dataset_dir [] hrv_results = hrv_results"
| "hrv_loop dataset_dir (file # rest) hrv_results =
     (if endswith file ''.csv''
      then hrv_loop dataset_dir rest (hrv_results @ [calculate_HRV_metrics dataset_dir file])
      else hrv_loop dataset_dir rest hrv_results)"

definition process_HRV_files :: "(string \<rightharpoonup> hrv_data) \<Rightarrow> string list \<Rightarrow> results option list" where
  "process_HRV_files dataset_dir file_list_in = hrv_loop dataset_dir file_list_in []"

subsection \<open>The intervals by position\<close>

text \<open>
  The same quantities read directly off the file, by the position \<open>i\<close> of the first beat of
  a pair: the interval between beats \<open>i\<close> and \<open>i + 1\<close>, the concatenated type of the pair,
  the positions of the "NN" pairs, and among these the positions whose following pair is
  "NN" as well. The interval is the float64 difference of the two times.
\<close>

definition interval :: "real list \<Rightarrow> nat \<Rightarrow> real" where
  "interval ts i = fsub (ts ! Suc i) (ts ! i)"

definition pair_type :: "string option list \<Rightarrow> nat \<Rightarrow> string option" where
  "pair_type tys i =
     (case (tys ! i, tys ! Suc i) of (Some a, Some b) \<Rightarrow> Some (a @ b) | _ \<Rightarrow> None)"

definition nn_pairs :: "string option list \<Rightarrow> nat list" where
  "nn_pairs tys = filter (\<lambda>i. pair_type tys i = Some ''NN'') [0..<length tys - 1]"

definition nn_successive :: "string option list \<Rightarrow> nat list" where
  "nn_successive tys =
     filter (\<lambda>i. Suc i < length tys - 1 \<and> pair_type tys (Suc i) = Some ''NN'') (nn_pairs tys)"

text \<open>The mean of the intervals over the "NN" pairs.\<close>

definition nn_mean :: "real list \<Rightarrow> string option list \<Rightarrow> real" where
  "nn_mean ts tys = sum_list (map (interval ts) (nn_pairs tys)) / real (length (nn_pairs tys))"

text \<open>
  The percentage of "NN" intervals whose difference to the following "NN" interval
  exceeds \<open>thr\<close>, over the number of all "NN" intervals, rounded to one decimal.
\<close>

definition spec_pnn :: "real \<Rightarrow> real list \<Rightarrow> string option list \<Rightarrow> npfloat" where
  "spec_pnn thr ts tys =
     np_round (Fin (fdiv
       (100 * real (length (filter (\<lambda>i. thr < \<bar>fsub (interval ts i) (interval ts (Suc i))\<bar>)
                             (nn_successive tys))))
       (real (length (nn_pairs tys))))) 1"

text \<open>
  The interval at position \<open>i\<close> of a column with missing times, and row \<open>i\<close> of the data
  frame, written out.
\<close>

definition rr_at :: "real option list \<Rightarrow> nat \<Rightarrow> real option" where
  "rr_at col i = sub (col ! Suc i) (col ! i)"

definition diff_at :: "real option list \<Rightarrow> nat \<Rightarrow> real option" where
  "diff_at col i = sub (rr_at col i) (rr_at col (Suc i))"

definition row_at :: "real option list \<Rightarrow> string option list \<Rightarrow> nat \<Rightarrow> hrv_row" where
  "row_at col tys i =
     \<lparr>time = col ! i, type = tys ! i,
      time_next = (if Suc i < length col then col ! Suc i else None),
      type_next = (if Suc i < length col then tys ! Suc i else None),
      rr = (if Suc i < length col then rr_at col i else None),
      rr_type = (if Suc i < length col then pair_type tys i else None),
      rr_next = (if Suc (Suc i) < length col then rr_at col (Suc i) else None),
      diff = (if Suc (Suc i) < length col then diff_at col i else None),
      diff_squared = (if Suc (Suc i) < length col
                      then map_option (\<lambda>d. fmul d d) (diff_at col i) else None),
      rr_next_type = (if Suc (Suc i) < length col then pair_type tys (Suc i) else None)\<rparr>"

subsection \<open>Comparison and sample files\<close>

text \<open>\<^verbatim>\<open><=\<close> on floats: false as soon as one side is NaN.\<close>

fun fle :: "npfloat \<Rightarrow> npfloat \<Rightarrow> bool" where
  "fle (Fin a) (Fin b) = (a \<le> b)"
| "fle _ _ = False"

text \<open>A file of \<open>k + 1\<close> normal beats, one every \<open>d\<close> units of time from time 0 on.\<close>

definition regular_beats :: "real \<Rightarrow> nat \<Rightarrow> hrv_data" where
  "regular_beats d k = map (\<lambda>i. (Num (d * real i), Some ''N'')) [0..<Suc k]"

text \<open>
  The same beats with every other one late by \<open>e\<close>: the intervals alternate between
  \<open>c + e\<close> and \<open>c - e\<close>.
\<close>

definition alternating_beats :: "real \<Rightarrow> real \<Rightarrow> nat \<Rightarrow> hrv_data" where
  "alternating_beats c e k =
     map (\<lambda>i. (Num (c * real i + (if even i then 0 else e)), Some ''N'')) [0..<Suc k]"

text \<open>A record in which a missing \<^verbatim>\<open>type\<close> is replaced by a type code that is not "N".\<close>

fun other_type :: "cell \<times> string option \<Rightarrow> cell \<times> string option" where
  "other_type (t, None) = (t, Some ''?'')"
| "other_type (t, Some ty) = (t, Some ty)"

section \<open>Rounding\<close>

lemma rint_of_int [simp]: "rint (of_int z) = z"
  by (simp add: rint_def)

lemma rint_bounds: "\<lfloor>x\<rfloor> \<le> rint x \<and> rint x \<le> \<lfloor>x\<rfloor> + 1"
  by (simp add: rint_def Let_def)

lemma rint_mono:
  assumes "x \<le> y"
  shows "rint x \<le> rint y"
proof (cases "\<lfloor>x\<rfloor> < \<lfloor>y\<rfloor>")
  case True
  then show ?thesis
    using rint_bounds[of x] rint_bounds[of y] by linarith
next
  case False
  with assms have eq: "\<lfloor>x\<rfloor> = \<lfloor>y\<rfloor>"
    using floor_mono[of x y] by linarith
  with assms show ?thesis
    by (auto simp: rint_def Let_def)
qed

lemma rint_minus: "rint (- x) = - rint x"
proof (cases "x \<in> \<int>")
  case True
  then obtain z where "x = of_int z" by (auto elim: Ints_cases)
  then show ?thesis by (simp flip: of_int_minus)
next
  case False
  then have "x \<noteq> of_int \<lfloor>x\<rfloor>"
    by (metis Ints_of_int)
  then have f: "\<lfloor>- x\<rfloor> = - \<lfloor>x\<rfloor> - 1"
    by (simp add: floor_minus ceiling_altdef)
  show ?thesis
    unfolding rint_def Let_def f
    by (auto simp: algebra_simps)
qed

lemma two_powr_int: "0 \<le> k \<Longrightarrow> (2::real) powr (of_int k) = 2 ^ nat k"
  by (simp add: powr_real_of_int)

lemma two_powr_neg_int: "0 \<le> k \<Longrightarrow> (2::real) powr (- of_int k) = 1 / 2 ^ nat k"
  by (simp add: powr_minus two_powr_int divide_inverse)

lemma exponent_ge_one:
  fixes a :: real
  assumes "1 \<le> a"
  shows "2 powr (of_int (bitlen \<lfloor>a\<rfloor> - 1)) \<le> a" and "a < 2 powr (of_int (bitlen \<lfloor>a\<rfloor> - 1) + 1)"
proof -
  let ?n = "\<lfloor>a\<rfloor>"
  have n: "0 < ?n" using assms by simp
  from bitlen_bounds[OF n] have lo: "2 ^ nat (bitlen ?n - 1) \<le> ?n" and hi: "?n < 2 ^ nat (bitlen ?n)"
    by simp_all
  have b1: "1 \<le> bitlen ?n" using n by (auto simp: bitlen_alt_def)
  have "(2::real) ^ nat (bitlen ?n - 1) = of_int (2 ^ nat (bitlen ?n - 1))" by simp
  also have "\<dots> \<le> of_int ?n" using lo by (simp only: of_int_le_iff)
  also have "\<dots> \<le> a" by simp
  finally show "2 powr (of_int (bitlen ?n - 1)) \<le> a"
    using b1 by (simp only: two_powr_int[of "bitlen ?n - 1"])
  from hi have "?n + 1 \<le> 2 ^ nat (bitlen ?n)" by simp
  then have "(of_int (?n + 1) :: real) \<le> of_int (2 ^ nat (bitlen ?n))" by (simp only: of_int_le_iff)
  then have "of_int ?n + 1 \<le> (2::real) ^ nat (bitlen ?n)" by simp
  moreover have "a < of_int ?n + 1" by linarith
  ultimately have "a < 2 ^ nat (bitlen ?n)" by linarith
  moreover have "real_of_int (bitlen ?n - 1) + 1 = of_int (bitlen ?n)" by simp
  ultimately show "a < 2 powr (of_int (bitlen ?n - 1) + 1)"
    using b1 by (simp only: two_powr_int[of "bitlen ?n"])
qed

lemma exponent_lt_one:
  fixes a :: real
  assumes "0 < a" "a < 1"
  shows "2 powr (of_int (- bitlen (\<lceil>1 / a\<rceil> - 1))) \<le> a"
    and "a < 2 powr (of_int (- bitlen (\<lceil>1 / a\<rceil> - 1)) + 1)"
proof -
  let ?y = "1 / a"
  let ?N = "\<lceil>?y\<rceil>"
  let ?b = "bitlen (?N - 1)"
  have y: "1 < ?y" using assms by simp
  then have N: "0 < ?N - 1" by (simp add: less_ceiling_iff)
  from bitlen_bounds[OF N] have lo: "2 ^ nat (?b - 1) \<le> ?N - 1" and hi: "?N - 1 < 2 ^ nat ?b"
    by simp_all
  have b1: "1 \<le> ?b" using N by (auto simp: bitlen_alt_def)
  from hi have "?N \<le> 2 ^ nat ?b" by simp
  then have N2: "(of_int ?N :: real) \<le> of_int (2 ^ nat ?b)" by (simp only: of_int_le_iff)
  have "?y \<le> of_int ?N" by (rule le_of_int_ceiling)
  also note N2
  also have "(of_int (2 ^ nat ?b) :: real) = 2 ^ nat ?b" by simp
  finally have "?y \<le> 2 ^ nat ?b" .
  then have 1: "1 / 2 ^ nat ?b \<le> a"
    using assms(1) by (simp add: field_simps)
  have "2 powr (of_int (- ?b)) = (1::real) / 2 ^ nat ?b"
    using b1 two_powr_neg_int[of ?b] by simp
  with 1 show "2 powr (of_int (- ?b)) \<le> a" by simp
  from lo have "(of_int (2 ^ nat (?b - 1)) :: real) \<le> of_int (?N - 1)" by (simp only: of_int_le_iff)
  moreover have "of_int (?N - 1) < ?y"
    using ceiling_correct[of ?y] by simp
  ultimately have "2 ^ nat (?b - 1) < ?y" by simp
  then have 2: "a < 1 / 2 ^ nat (?b - 1)"
    using assms(1) by (simp add: field_simps)
  have "real_of_int (- ?b) + 1 = - of_int (?b - 1)" by simp
  then have "2 powr (of_int (- ?b) + 1) = (1::real) / 2 ^ nat (?b - 1)"
    using b1 two_powr_neg_int[of "?b - 1"] by simp
  with 2 show "a < 2 powr (of_int (- ?b) + 1)" by simp
qed

lemma exponent_log:
  assumes "x \<noteq> 0"
  shows "exponent x = \<lfloor>log 2 \<bar>x\<bar>\<rfloor>"
proof -
  have pos: "0 < \<bar>x\<bar>" using assms by simp
  have "2 powr (of_int (exponent x)) \<le> \<bar>x\<bar> \<and> \<bar>x\<bar> < 2 powr (of_int (exponent x) + 1)"
  proof (cases "1 \<le> \<bar>x\<bar>")
    case True
    with exponent_ge_one[OF True] show ?thesis by (simp add: exponent_def)
  next
    case False
    with exponent_lt_one[of "\<bar>x\<bar>"] pos show ?thesis by (simp add: exponent_def)
  qed
  then show ?thesis
    using floor_log_eq_powr_iff[of "\<bar>x\<bar>" 2 "exponent x"] pos by simp
qed

lemma ulp_powr: "ulp x = 2 powr (of_int (exponent x) - 52)"
proof -
  have "(2::real) powr (of_int (exponent x - 52)) = 2 powi (exponent x - 52)"
    by (rule powr_real_of_int') simp_all
  then show ?thesis by (simp add: ulp_def)
qed

lemma exponent_eqI:
  assumes "2 powr (of_int e) \<le> \<bar>x\<bar>" and "\<bar>x\<bar> < 2 powr (of_int e + 1)"
  shows "exponent x = e"
proof -
  have "0 < \<bar>x\<bar>"
    using assms(1) by (smt (verit) powr_gt_zero)
  then show ?thesis
    using assms exponent_log[of x] by (simp add: floor_log_eq_powr_iff)
qed

lemma exponent_bounds:
  assumes "x \<noteq> 0"
  shows "2 powr (of_int (exponent x)) \<le> \<bar>x\<bar>" and "\<bar>x\<bar> < 2 powr (of_int (exponent x) + 1)"
  using assms floor_log_eq_powr_iff[of "\<bar>x\<bar>" 2 "exponent x"]
  by (simp_all add: exponent_log)

lemma exponent_minus [simp]: "exponent (- x) = exponent x"
  by (simp add: exponent_def)

lemma ulp_minus [simp]: "ulp (- x) = ulp x"
  by (simp add: ulp_powr)

lemma ulp_pos [simp]: "0 < ulp x"
  by (simp add: ulp_powr)

lemma fl_zero [simp]: "fl 0 = 0"
  by (simp add: fl_def)

lemma fl_minus: "fl (- x) = - fl x"
  by (simp add: fl_def rint_minus)

lemma mantissa_bounds:
  assumes "0 < x"
  shows "2 ^ 52 \<le> x / ulp x" and "x / ulp x < 2 ^ 53"
proof -
  have x: "x \<noteq> 0" "\<bar>x\<bar> = x" using assms by auto
  have u: "ulp x = 2 powr (of_int (exponent x)) / 2 ^ 52"
    by (simp add: ulp_powr powr_diff)
  have p: "0 < 2 powr (of_int (exponent x) :: real)" by simp
  from exponent_bounds[OF x(1)] x(2)
  have b: "2 powr (of_int (exponent x)) \<le> x" "x < 2 powr (of_int (exponent x)) * 2"
    by (simp_all add: powr_add)
  show "2 ^ 52 \<le> x / ulp x"
    using b(1) p unfolding u by (simp add: field_simps)
  show "x / ulp x < 2 ^ 53"
    using b(2) p unfolding u by (simp add: field_simps)
qed

lemma fl_pos_bounds:
  assumes "0 < x"
  shows "2 powr (of_int (exponent x)) \<le> fl x" and "fl x \<le> 2 powr (of_int (exponent x) + 1)"
proof -
  have u: "ulp x = 2 powr (of_int (exponent x)) / 2 ^ 52"
    by (simp add: ulp_powr powr_diff)
  from mantissa_bounds[OF assms] have "rint (2 ^ 52) \<le> rint (x / ulp x)" "rint (x / ulp x) \<le> rint (2 ^ 53)"
    by (auto intro!: rint_mono)
  moreover have "rint (2 ^ 52) = 2 ^ 52" "rint (2 ^ 53) = 2 ^ 53"
    using rint_of_int[of "2 ^ 52"] rint_of_int[of "2 ^ 53"] by simp_all
  ultimately have m: "(2 ^ 52 :: real) \<le> of_int (rint (x / ulp x))" "of_int (rint (x / ulp x)) \<le> (2 ^ 53 :: real)"
    by (simp_all flip: of_int_le_iff)
  have f: "fl x = of_int (rint (x / ulp x)) * ulp x"
    using assms by (simp add: fl_def)
  have "2 ^ 52 * ulp x \<le> fl x" "fl x \<le> 2 ^ 53 * ulp x"
    unfolding f using m by (simp_all add: mult_right_mono)
  then show "2 powr (of_int (exponent x)) \<le> fl x" "fl x \<le> 2 powr (of_int (exponent x) + 1)"
    by (simp_all add: u powr_add)
qed

lemma fl_pos: "0 < x \<Longrightarrow> 0 < fl x"
  using fl_pos_bounds(1)[of x] by (smt (verit) powr_gt_zero)

lemma exponent_mono:
  assumes "0 < x" "x \<le> y"
  shows "exponent x \<le> exponent y"
proof -
  have "\<lfloor>log 2 \<bar>x\<bar>\<rfloor> \<le> \<lfloor>log 2 \<bar>y\<bar>\<rfloor>"
    using assms by (intro floor_mono) simp
  then show ?thesis
    using assms by (simp add: exponent_log)
qed

lemma fl_mono_pos:
  assumes "0 < x" "x \<le> y"
  shows "fl x \<le> fl y"
proof (cases "exponent x = exponent y")
  case True
  then have u: "ulp x = ulp y" by (simp add: ulp_powr)
  have "rint (x / ulp y) \<le> rint (y / ulp y)"
    using assms by (intro rint_mono divide_right_mono less_imp_le[OF ulp_pos]) simp
  then have "of_int (rint (x / ulp y)) * ulp y \<le> of_int (rint (y / ulp y)) * ulp y"
    by (simp add: mult_right_mono)
  with assms show ?thesis by (simp add: fl_def u)
next
  case False
  with exponent_mono[OF assms] have "exponent x + 1 \<le> exponent y" by simp
  then have "(of_int (exponent x + 1) :: real) \<le> of_int (exponent y)"
    by (simp only: of_int_le_iff)
  then have "real_of_int (exponent x) + 1 \<le> real_of_int (exponent y)"
    by simp
  then have "2 powr (of_int (exponent x) + 1) \<le> (2::real) powr (of_int (exponent y))"
    by (intro powr_mono) simp_all
  moreover have "0 < y" using assms by simp
  ultimately show ?thesis
    using fl_pos_bounds(2)[OF assms(1)] fl_pos_bounds(1)[of y] by linarith
qed

lemma fl_mono:
  assumes "x \<le> y"
  shows "fl x \<le> fl y"
proof -
  consider "0 < x" | "x \<le> 0" "0 \<le> y" | "y < 0" by linarith
  then show ?thesis
  proof cases
    case 1
    then show ?thesis using assms by (rule fl_mono_pos)
  next
    case 2
    have "fl x \<le> 0"
      using 2(1) fl_pos[of "- x"] by (cases "x = 0") (simp_all add: fl_minus)
    moreover have "0 \<le> fl y"
      using 2(2) fl_pos[of y] by (cases "y = 0") simp_all
    ultimately show ?thesis by simp
  next
    case 3
    with assms have "fl (- y) \<le> fl (- x)" by (intro fl_mono_pos) simp_all
    then show ?thesis by (simp add: fl_minus)
  qed
qed

lemma fl_scaled:
  fixes k :: nat
  assumes "2 ^ 52 \<le> \<bar>x\<bar> * 2 ^ k" and "\<bar>x\<bar> * 2 ^ k < 2 ^ 53"
  shows "fl x = of_int (rint (x * 2 ^ k)) / 2 ^ k"
proof -
  have "exponent x = 52 - int k"
  proof (rule exponent_eqI)
    show "2 powr real_of_int (52 - int k) \<le> \<bar>x\<bar>"
      using assms(1) by (simp add: powr_diff powr_realpow field_simps)
    show "\<bar>x\<bar> < 2 powr (real_of_int (52 - int k) + 1)"
      using assms(2) by (simp add: powr_diff powr_add powr_realpow field_simps)
  qed
  then have "real_of_int (exponent x) - 52 = - real k"
    by simp
  then have "ulp x = 2 powr (- real k)"
    by (simp only: ulp_powr)
  then have u: "ulp x = 1 / 2 ^ k"
    by (simp add: powr_minus powr_realpow divide_inverse)
  have "x \<noteq> 0" using assms(1) by auto
  then show ?thesis by (simp add: fl_def u)
qed

lemma fl_of_int:
  assumes "\<bar>z\<bar> < 2 ^ 53"
  shows "fl (of_int z) = of_int z"
proof (cases "z = 0")
  case True
  then show ?thesis by simp
next
  case False
  define e where "e = exponent (of_int z)"
  have nz: "(of_int z :: real) \<noteq> 0" using False by simp
  from exponent_bounds[OF nz]
  have b: "2 powr (of_int e) \<le> \<bar>of_int z :: real\<bar>" "\<bar>of_int z :: real\<bar> < 2 powr (of_int e + 1)"
    by (simp_all add: e_def)
  have z1: "1 \<le> \<bar>of_int z :: real\<bar>" using False by (simp flip: of_int_abs)
  have "(of_int \<bar>z\<bar> :: real) < of_int (2 ^ 53)"
    using assms by (simp only: of_int_less_iff)
  then have z2: "\<bar>of_int z :: real\<bar> < 2 ^ 53" by simp
  have "0 \<le> e"
  proof (rule ccontr)
    assume "\<not> 0 \<le> e"
    then have "e + 1 \<le> 0" by simp
    then have "(of_int (e + 1) :: real) \<le> of_int 0" by (simp only: of_int_le_iff)
    then have "of_int e + 1 \<le> (0::real)" by simp
    then have "2 powr (of_int e + 1) \<le> (2::real) powr 0" by (intro powr_mono) simp_all
    with b(2) z1 show False by simp
  qed
  moreover have "e \<le> 52"
  proof (rule ccontr)
    assume "\<not> e \<le> 52"
    then have "53 \<le> e" by simp
    then have "(of_int 53 :: real) \<le> of_int e" by (simp only: of_int_le_iff)
    then have "53 \<le> (of_int e :: real)" by simp
    then have "(2::real) powr 53 \<le> 2 powr (of_int e)" by (intro powr_mono) simp_all
    with b(1) z2 show False by simp
  qed
  ultimately have "e = 52 - int (nat (52 - e))"
    by simp
  then obtain j :: nat where j: "e = 52 - int j" ..
  have "real_of_int e - 52 = - real j"
    using j by simp
  then have "ulp (of_int z) = 2 powr (- real j)"
    by (simp only: ulp_powr e_def)
  then have u: "ulp (of_int z) = 1 / 2 ^ j"
    by (simp add: powr_minus powr_realpow divide_inverse)
  have "of_int z / ulp (of_int z) = (of_int (z * 2 ^ j) :: real)"
    by (simp add: u)
  then have "rint (of_int z / ulp (of_int z)) = z * 2 ^ j"
    by (simp only: rint_of_int)
  then show ?thesis
    using nz by (simp add: fl_def u)
qed

section \<open>The frame, row by row\<close>

lemma length_shift [simp]: "length (shift xs) = length xs"
  by (cases xs) simp_all

lemma shift_nth: "i < length xs \<Longrightarrow> shift xs ! i = (if Suc i < length xs then xs ! Suc i else None)"
  by (cases xs) (auto simp: nth_append)

lemma add_pair_type: "add (tys ! i) (tys ! Suc i) = pair_type tys i"
  by (cases "tys ! i"; cases "tys ! Suc i") (simp_all add: pair_type_def)

lemma sub_None [simp]: "sub x None = None"
  by (cases x) simp_all

lemma hrv_frame_rows:
  assumes "length tys = length col"
  shows "hrv_frame col tys = map (row_at col tys) [0..<length col]"
  unfolding hrv_frame_def Let_def
  by (rule map_cong[OF refl])
    (simp add: assms shift_nth row_at_def rr_at_def diff_at_def add_pair_type)

lemma nn_rows_frame:
  assumes "length tys = length col"
  shows "nn_rows (hrv_frame col tys) = map (row_at col tys) (nn_pairs tys)"
proof -
  have "filter (\<lambda>i. rr_type (row_at col tys i) = Some ''NN'') [0..<length col] = nn_pairs tys"
  proof (cases col)
    case Nil
    then show ?thesis using assms by (simp add: nn_pairs_def)
  next
    case (Cons a list)
    then have "[0..<length col] = [0..<length col - 1] @ [length col - 1]"
      by simp
    then show ?thesis
      by (auto simp: nn_pairs_def assms row_at_def intro!: filter_cong)
  qed
  then show ?thesis
    by (simp add: nn_rows_def hrv_frame_rows[OF assms] filter_map o_def)
qed

lemma nn_next_rows_frame:
  assumes "length tys = length col"
  shows "nn_next_rows (map (row_at col tys) (nn_pairs tys)) =
         map (row_at col tys) (nn_successive tys)"
  by (auto simp add: nn_next_rows_def nn_successive_def filter_map o_def row_at_def assms
      intro!: filter_cong arg_cong[where f="map _"])

lemma nn_pairs_bound: "i \<in> set (nn_pairs tys) \<Longrightarrow> Suc i < length tys"
  by (auto simp: nn_pairs_def)

lemma nn_successive_bound: "i \<in> set (nn_successive tys) \<Longrightarrow> Suc (Suc i) < length tys"
  by (auto simp: nn_successive_def)

lemma rr_rows:
  assumes "length tys = length col"
  shows "map rr (map (row_at col tys) (nn_pairs tys)) = map (rr_at col) (nn_pairs tys)"
  using nn_pairs_bound[of _ tys] by (simp add: row_at_def assms)

lemma diff_rows:
  assumes "length tys = length col"
  shows "map diff (map (row_at col tys) (nn_successive tys)) =
         map (diff_at col) (nn_successive tys)"
  using nn_successive_bound[of _ tys] by (simp add: row_at_def assms)

lemma diff_squared_rows:
  assumes "length tys = length col"
  shows "map diff_squared (map (row_at col tys) (nn_successive tys)) =
         map (\<lambda>i. map_option (\<lambda>d. fmul d d) (diff_at col i)) (nn_successive tys)"
  using nn_successive_bound[of _ tys] by (simp add: row_at_def assms)

lemma time_column_length: "time_column cs = Inr col \<Longrightarrow> length col = length cs"
  by (auto simp: time_column_def split: if_splits)

lemma time_column_Num: "time_column (map Num ts) = Inr (map Some ts)"
  by (simp add: time_column_def list_ex_iff o_def image_iff)

text \<open>The function of lines 83 to 121 in terms of the positions.\<close>

lemma compute_by_position:
  assumes "time_column (map fst data) = Inr col"
  shows "compute data =
    (case py_int (np_round (mean (map (rr_at col) (nn_pairs (map snd data)))) 0) of
       Inl e \<Rightarrow> Inl e
     | Inr m \<Rightarrow>
        (if m = 0 then Inl ZeroDivisionError
         else Inr \<lparr>val_n = length (nn_pairs (map snd data)),
                   val_mean_nn = m,
                   val_mean_bpm = np_round (Fin (fmul (fdiv 1000 (of_int m)) 60)) 1,
                   val_sdnn = np_round (std (map (rr_at col) (nn_pairs (map snd data)))) 1,
                   val_rmssd = np_round (np_sqrt (mean
                     (map (\<lambda>i. map_option (\<lambda>d. fmul d d) (diff_at col i))
                       (nn_successive (map snd data))))) 1,
                   val_pnn50 = np_round (Fin (fdiv
                     (100 * real (count_abs_gt 50 (map (diff_at col) (nn_successive (map snd data)))))
                     (real (length (nn_pairs (map snd data)))))) 1,
                   val_pnn20 = np_round (Fin (fdiv
                     (100 * real (count_abs_gt 20 (map (diff_at col) (nn_successive (map snd data)))))
                     (real (length (nn_pairs (map snd data)))))) 1\<rparr>))"
proof -
  have len: "length (map snd data) = length col"
    using time_column_length[OF assms] by simp
  show ?thesis
    unfolding compute_def assms sum.case Let_def pnn_def
      nn_rows_frame[OF len] nn_next_rows_frame[OF len]
      rr_rows[OF len] diff_rows[OF len] diff_squared_rows[OF len] length_map
    by (rule refl)
qed

lemma dropna_map_Some [simp]: "dropna (map (\<lambda>i. Some (g i)) xs) = map g xs"
  by (induction xs) simp_all

lemma count_abs_gt_Some:
  "count_abs_gt thr (map (\<lambda>i. Some (g i)) xs) = length (filter (\<lambda>i. thr < \<bar>g i\<bar>) xs)"
  by (simp add: count_abs_gt_def filter_map o_def)

lemma py_int_round0: "py_int (np_round (Fin x) 0) = Inr (rint x)"
  by (simp add: py_int_def np_round_def)

lemma rr_at_Some: "Suc i < length ts \<Longrightarrow> rr_at (map Some ts) i = Some (interval ts i)"
  by (simp add: rr_at_def interval_def)

lemma diff_at_Some:
  "Suc (Suc i) < length ts \<Longrightarrow>
   diff_at (map Some ts) i = Some (fsub (interval ts i) (interval ts (Suc i)))"
  by (simp add: diff_at_def rr_at_Some)

text \<open>The same for a file in which every time is a number.\<close>

lemma compute_numeric:
  assumes "map fst data = map Num ts"
  shows "compute data =
    (if nn_pairs (map snd data) = [] then Inl ValueError
     else if rint (nn_mean ts (map snd data)) = 0 then Inl ZeroDivisionError
     else Inr \<lparr>val_n = length (nn_pairs (map snd data)),
               val_mean_nn = rint (nn_mean ts (map snd data)),
               val_mean_bpm =
                 np_round (Fin (fmul (fdiv 1000 (of_int (rint (nn_mean ts (map snd data))))) 60)) 1,
               val_sdnn = np_round (std (map (\<lambda>i. Some (interval ts i)) (nn_pairs (map snd data)))) 1,
               val_rmssd = np_round (np_sqrt (mean
                 (map (\<lambda>i. Some (fmul (fsub (interval ts i) (interval ts (Suc i)))
                                       (fsub (interval ts i) (interval ts (Suc i)))))
                   (nn_successive (map snd data))))) 1,
               val_pnn50 = spec_pnn 50 ts (map snd data),
               val_pnn20 = spec_pnn 20 ts (map snd data)\<rparr>)"
proof -
  let ?tys = "map snd data"
  have col: "time_column (map fst data) = Inr (map Some ts)"
    unfolding assms by (rule time_column_Num)
  have len: "length data = length ts"
    using arg_cong[OF assms, of length] by simp
  have r: "map (rr_at (map Some ts)) (nn_pairs ?tys) = map (\<lambda>i. Some (interval ts i)) (nn_pairs ?tys)"
    using nn_pairs_bound[of _ ?tys] by (auto simp: rr_at_Some len)
  have d: "map (diff_at (map Some ts)) (nn_successive ?tys) =
      map (\<lambda>i. Some (fsub (interval ts i) (interval ts (Suc i)))) (nn_successive ?tys)"
    using nn_successive_bound[of _ ?tys] by (auto simp: diff_at_Some len)
  have q: "map (\<lambda>i. map_option (\<lambda>d. fmul d d) (diff_at (map Some ts) i)) (nn_successive ?tys) =
      map (\<lambda>i. Some (fmul (fsub (interval ts i) (interval ts (Suc i)))
                           (fsub (interval ts i) (interval ts (Suc i))))) (nn_successive ?tys)"
    using nn_successive_bound[of _ ?tys] by (auto simp: diff_at_Some len)
  have m: "py_int (np_round (mean (map (\<lambda>i. Some (interval ts i)) (nn_pairs ?tys))) 0) =
      (if nn_pairs ?tys = [] then Inl ValueError else Inr (rint (nn_mean ts ?tys)))"
    by (simp add: mean_def nn_mean_def py_int_round0) (simp add: np_round_def py_int_def)
  show ?thesis
    unfolding compute_by_position[OF col] r d q m
    by (simp add: spec_pnn_def count_abs_gt_Some)
qed

section \<open>Rounding and counting\<close>

lemma fl_numeral: "(numeral w :: int) < 2 ^ 53 \<Longrightarrow> fl (numeral w) = numeral w"
  using fl_of_int[of "numeral w"] by simp

lemma fl_one [simp]: "fl 1 = 1"
  using fl_of_int[of 1] by simp

text \<open>Evaluating \<open>fl\<close> at a number: the scale \<open>k\<close> and the mantissa \<open>m\<close> are given.\<close>

lemma fl_eval:
  fixes k :: nat
  assumes "2 ^ 52 \<le> \<bar>x\<bar> * 2 ^ k" and "\<bar>x\<bar> * 2 ^ k < 2 ^ 53" and "rint (x * 2 ^ k) = m"
  shows "fl x = of_int m / 2 ^ k"
  using fl_scaled[OF assms(1,2)] assms(3) by simp

lemma rint_small: "\<bar>x\<bar> < 1 / 2 \<Longrightarrow> rint x = 0"
proof -
  assume a: "\<bar>x\<bar> < 1 / 2"
  show ?thesis
  proof (cases "0 \<le> x")
    case True
    with a have "\<lfloor>x\<rfloor> = 0" by (simp add: floor_eq_iff)
    with a True show ?thesis by (simp add: rint_def)
  next
    case False
    with a have "\<lfloor>x\<rfloor> = -1" by (simp add: floor_eq_iff)
    with a False show ?thesis by (simp add: rint_def)
  qed
qed

lemma rint_nonneg: "0 \<le> x \<Longrightarrow> 0 \<le> rint x"
  using rint_mono[of 0 x] rint_of_int[of 0] by simp

lemma rint_ge_one: "1 \<le> x \<Longrightarrow> 1 \<le> rint x"
  using rint_mono[of 1 x] rint_of_int[of 1] by simp

lemma np_round_zero: "np_round (Fin 0) j = Fin 0"
  using rint_of_int[of 0] by (simp add: np_round_def fmul_def)

lemma np_round_mono:
  assumes "v \<le> w"
  shows "fle (np_round (Fin v) j) (np_round (Fin w) j)"
proof (cases "j = 0")
  case True
  with assms show ?thesis by (simp add: np_round_def rint_mono)
next
  case False
  from assms have "v * 10 ^ j \<le> w * 10 ^ j"
    by (simp add: mult_right_mono)
  then have "rint (fl (v * 10 ^ j)) \<le> rint (fl (w * 10 ^ j))"
    by (intro rint_mono fl_mono)
  with False show ?thesis
    by (simp add: np_round_def fmul_def divide_right_mono)
qed

lemma count_abs_gt_antimono:
  assumes "a \<le> b"
  shows "count_abs_gt b col \<le> count_abs_gt a col"
proof (induction col)
  case Nil
  then show ?case by (simp add: count_abs_gt_def)
next
  case (Cons d col)
  with assms show ?case
    by (cases d) (auto simp: count_abs_gt_def)
qed

lemma pnn_antimono:
  assumes "a \<le> b"
  shows "fle (pnn b df k) (pnn a df k)"
proof -
  have "real (count_abs_gt b (map diff df)) \<le> real (count_abs_gt a (map diff df))"
    using count_abs_gt_antimono[OF assms] by simp
  then have "100 * real (count_abs_gt b (map diff df)) / real k
          \<le> 100 * real (count_abs_gt a (map diff df)) / real k"
    by (simp add: divide_right_mono)
  then show ?thesis
    unfolding pnn_def fdiv_def by (intro np_round_mono fl_mono)
qed

lemma both_N:
  assumes "a \<noteq> []" "b \<noteq> []"
  shows "a @ b = ''NN'' \<longleftrightarrow> a = ''N'' \<and> b = ''N''"
  using assms by (cases a; cases b) (auto simp: append_eq_Cons_conv)

lemma pair_type_both_N:
  assumes "list_all (\<lambda>ty. ty \<noteq> Some []) tys" "Suc i < length tys"
  shows "pair_type tys i = Some ''NN'' \<longleftrightarrow> tys ! i = Some ''N'' \<and> tys ! Suc i = Some ''N''"
proof -
  from assms have "tys ! i \<noteq> Some []" "tys ! Suc i \<noteq> Some []"
    by (auto simp: list_all_length)
  then show ?thesis
    by (cases "tys ! i"; cases "tys ! Suc i") (auto simp: pair_type_def both_N)
qed

lemma std_nonneg:
  assumes "2 \<le> length xs"
  shows "\<exists>y. std (map (\<lambda>i. Some (g i)) xs) = Fin y \<and> 0 \<le> y"
proof -
  have "0 \<le> sum_list (map (\<lambda>x. (x - mu)\<^sup>2) (map g xs))" for mu :: real
    by (rule sum_list_nonneg) auto
  then show ?thesis
    using assms by (simp add: std_def Let_def)
qed

lemma sum_list_ge_length:
  assumes "\<And>x. x \<in> set xs \<Longrightarrow> 1 \<le> g x"
  shows "real (length xs) \<le> sum_list (map g xs)"
  using assms by (induction xs) (auto simp: add_mono)

section \<open>What the function returns\<close>

lemma compute_n:
  assumes "compute data = Inr v"
  shows "val_n v = length (nn_pairs (map snd data))"
proof -
  from assms obtain col where col: "time_column (map fst data) = Inr col"
    by (cases "time_column (map fst data)") (auto simp: compute_def)
  from assms show ?thesis
    unfolding compute_by_position[OF col] by (auto split: sum.splits if_splits)
qed


lemma compute_pnn:
  assumes "compute data = Inr v"
  shows "\<exists>df k. val_pnn50 v = pnn 50 df k \<and> val_pnn20 v = pnn 20 df k"
  using assms by (fastforce simp: compute_def Let_def split: sum.splits if_splits)


section \<open>Files of normal beats only\<close>

lemma filter_all: "(\<And>x. x \<in> set xs \<Longrightarrow> P x) \<Longrightarrow> filter P xs = xs"
  by (induction xs) simp_all

lemma pair_type_all_N:
  assumes "\<And>j. j < length tys \<Longrightarrow> tys ! j = Some ''N''" and "Suc i < length tys"
  shows "pair_type tys i = Some ''NN''"
  using assms(1)[of i] assms(1)[of "Suc i"] assms(2) by (simp add: pair_type_def)

lemma nn_pairs_all_N:
  assumes "\<And>j. j < length tys \<Longrightarrow> tys ! j = Some ''N''" and "length tys = Suc k"
  shows "nn_pairs tys = [0..<k]"
  unfolding nn_pairs_def using assms
  by (auto intro!: filter_all[THEN trans] pair_type_all_N)

lemma nn_successive_all_N:
  assumes "\<And>j. j < length tys \<Longrightarrow> tys ! j = Some ''N''" and "length tys = Suc k"
  shows "nn_successive tys = [0..<k - Suc 0]"
proof -
  have "filter (\<lambda>i. Suc i < length tys - 1 \<and> pair_type tys (Suc i) = Some ''NN'') [0..<k]
      = filter (\<lambda>i. i < k - Suc 0) [0..<k]"
    using assms by (auto intro!: filter_cong pair_type_all_N)
  also have "\<dots> = [0..<k - Suc 0]"
    by (induction k) (auto simp: filter_all)
  finally show ?thesis
    by (simp add: nn_successive_def nn_pairs_all_N[OF assms])
qed

lemma regular_fst: "map fst (regular_beats d k) = map Num (map (\<lambda>i. d * real i) [0..<Suc k])"
  by (simp add: regular_beats_def o_def)

lemma regular_snd:
  "j < length (map snd (regular_beats d k)) \<Longrightarrow> map snd (regular_beats d k) ! j = Some ''N''"
  "length (map snd (regular_beats d k)) = Suc k"
  by (simp_all add: regular_beats_def del: upt_Suc)

lemma regular_interval:
  "i < k \<Longrightarrow> interval (map (\<lambda>i. d * real i) [0..<Suc k]) i = fl d"
  by (simp add: interval_def fsub_def nth_append algebra_simps del: upt_Suc)

lemma dropna_replicate: "dropna (replicate j (Some x)) = replicate j x"
  by (induction j) simp_all

lemma regular_compute:
  assumes "2 \<le> k" and "rint (fl d) \<noteq> 0"
  shows "compute (regular_beats d k) =
     Inr \<lparr>val_n = k, val_mean_nn = rint (fl d),
          val_mean_bpm = np_round (Fin (fmul (fdiv 1000 (of_int (rint (fl d)))) 60)) 1,
          val_sdnn = Fin 0, val_rmssd = Fin 0, val_pnn50 = Fin 0, val_pnn20 = Fin 0\<rparr>"
proof -
  let ?ts = "map (\<lambda>i. d * real i) [0..<Suc k]"
  let ?tys = "map snd (regular_beats d k)"
  have nnp: "nn_pairs ?tys = [0..<k]" by (rule nn_pairs_all_N[OF regular_snd])
  have nns: "nn_successive ?tys = [0..<k - Suc 0]" by (rule nn_successive_all_N[OF regular_snd])
  have iv: "map (interval ?ts) [0..<k] = replicate k (fl d)"
    by (rule nth_equalityI) (simp_all add: regular_interval del: upt_Suc)
  have ivS: "map (\<lambda>i. Some (interval ?ts i)) [0..<k] = replicate k (Some (fl d))"
    by (rule nth_equalityI) (simp_all add: regular_interval del: upt_Suc)
  have dq: "map (\<lambda>i. Some (fmul (fsub (interval ?ts i) (interval ?ts (Suc i)))
                            (fsub (interval ?ts i) (interval ?ts (Suc i))))) [0..<k - Suc 0]
      = replicate (k - Suc 0) (Some 0)"
    by (rule nth_equalityI) (simp_all add: regular_interval fsub_def fmul_def del: upt_Suc)
  have nonempty: "[0..<k] \<noteq> []" using assms(1) by simp
  have mean: "nn_mean ?ts ?tys = fl d"
    using assms(1) by (simp add: nn_mean_def nnp iv sum_list_replicate del: upt_Suc)
  have sd: "std (replicate k (Some (fl d))) = Fin 0"
    using assms(1) by (simp add: std_def Let_def dropna_replicate sum_list_replicate)
  have rm: "np_sqrt (mean (replicate (k - Suc 0) (Some 0))) = Fin 0"
    using assms(1) by (simp add: mean_def Let_def dropna_replicate sum_list_replicate np_sqrt_def)
  have pn: "\<And>thr. 0 \<le> thr \<Longrightarrow> spec_pnn thr ?ts ?tys = Fin 0"
  proof -
    fix thr :: real assume "0 \<le> thr"
    then have "filter (\<lambda>i. thr < \<bar>fsub (interval ?ts i) (interval ?ts (Suc i))\<bar>) [0..<k - Suc 0] = []"
      by (auto simp: filter_empty_conv regular_interval fsub_def simp del: upt_Suc)
    then show "spec_pnn thr ?ts ?tys = Fin 0"
      by (simp add: spec_pnn_def nns nnp np_round_zero fdiv_def del: upt_Suc)
  qed
  show ?thesis
    using assms nonempty
    by (simp add: compute_numeric[OF regular_fst] nnp nns mean
        ivS dq sd rm pn np_round_zero del: upt_Suc)
qed

lemma sum_differences:
  "k < length ts \<Longrightarrow> sum_list (map (\<lambda>i. ts ! Suc i - ts ! i) [0..<k]) = ts ! k - ts ! 0"
  for ts :: "real list"
  by (induction k) simp_all

lemma alternating_fst:
  "map fst (alternating_beats c e k) =
     map Num (map (\<lambda>i. c * real i + (if even i then 0 else e)) [0..<Suc k])"
  by (simp add: alternating_beats_def o_def)

lemma alternating_snd:
  "j < length (map snd (alternating_beats c e k)) \<Longrightarrow> map snd (alternating_beats c e k) ! j = Some ''N''"
  "length (map snd (alternating_beats c e k)) = Suc k"
  by (simp_all add: alternating_beats_def del: upt_Suc)

lemma alternating_interval:
  assumes "i < k" and "fl (c + e) = c + e" and "fl (c - e) = c - e"
  shows "interval (map (\<lambda>i. c * real i + (if even i then 0 else e)) [0..<Suc k]) i
     = (if even i then c + e else c - e)"
  using assms by (simp add: interval_def fsub_def nth_append algebra_simps del: upt_Suc)

lemma alternating_compute:
  assumes "2 \<le> k" and "even k" and "rint c \<noteq> 0"
    and ex: "fl (c + e) = c + e" "fl (c - e) = c - e" "fl (2 * e) = 2 * e"
  shows "\<exists>v. compute (alternating_beats c e k) = Inr v \<and> val_n v = k \<and> val_mean_nn v = rint c
     \<and> val_pnn50 v = (if 50 < \<bar>2 * e\<bar>
                       then np_round (Fin (fdiv (100 * real (k - 1)) (real k))) 1 else Fin 0)
     \<and> val_pnn20 v = (if 20 < \<bar>2 * e\<bar>
                       then np_round (Fin (fdiv (100 * real (k - 1)) (real k))) 1 else Fin 0)"
proof -
  let ?ts = "map (\<lambda>i. c * real i + (if even i then 0 else e)) [0..<Suc k]"
  let ?tys = "map snd (alternating_beats c e k)"
  have nnp: "nn_pairs ?tys = [0..<k]" by (rule nn_pairs_all_N[OF alternating_snd])
  have nns: "nn_successive ?tys = [0..<k - Suc 0]" by (rule nn_successive_all_N[OF alternating_snd])
  have "map (interval ?ts) [0..<k] = map (\<lambda>i. ?ts ! Suc i - ?ts ! i) [0..<k]"
    by (rule map_cong[OF refl])
      (simp add: alternating_interval[OF _ ex(1,2)] nth_append algebra_simps del: upt_Suc)
  also have "sum_list \<dots> = ?ts ! k - ?ts ! 0"
    by (rule sum_differences) simp
  also have "\<dots> = c * real k"
    using assms(1,2) by (simp add: nth_append del: upt_Suc)
  finally have mean: "nn_mean ?ts ?tys = c"
    using assms(1) by (simp add: nn_mean_def nnp del: upt_Suc)
  have m2: "fl (- (2 * e)) = - (2 * e)"
    using ex(3) by (simp only: fl_minus)
  have pn: "\<And>thr. spec_pnn thr ?ts ?tys =
      (if thr < \<bar>2 * e\<bar> then np_round (Fin (fdiv (100 * real (k - 1)) (real k))) 1 else Fin 0)"
  proof -
    fix thr :: real
    have d: "\<And>i. i < k - Suc 0 \<Longrightarrow> \<bar>fsub (interval ?ts i) (interval ?ts (Suc i))\<bar> = \<bar>2 * e\<bar>"
      using ex(3) m2
      by (simp add: alternating_interval[OF _ ex(1,2)] fsub_def del: upt_Suc)
    have "filter (\<lambda>i. thr < \<bar>fsub (interval ?ts i) (interval ?ts (Suc i))\<bar>) [0..<k - Suc 0]
        = filter (\<lambda>i. thr < \<bar>2 * e\<bar>) [0..<k - Suc 0]"
      by (rule filter_cong) (simp_all add: d del: upt_Suc)
    then show "spec_pnn thr ?ts ?tys =
      (if thr < \<bar>2 * e\<bar> then np_round (Fin (fdiv (100 * real (k - 1)) (real k))) 1 else Fin 0)"
      by (simp add: spec_pnn_def nns nnp np_round_zero fdiv_def del: upt_Suc)
  qed
  have nonempty: "[0..<k] \<noteq> []" using assms(1) by simp
  show ?thesis
    using assms(1-3) nonempty
    by (simp add: compute_numeric[OF alternating_fst] nnp mean pn del: upt_Suc)
qed

section \<open>Malformed fields and the batch loop\<close>

lemma hrv_loop_append:
  "hrv_loop dataset_dir files acc =
     acc @ map (calculate_HRV_metrics dataset_dir) (filter (\<lambda>file. endswith file ''.csv'') files)"
  by (induction files arbitrary: acc) simp_all

lemma time_column_Text:
  "list_ex is_text cs \<Longrightarrow> adjacent_present cs \<Longrightarrow> time_column cs = Inl TypeError"
  by (simp add: time_column_def)

lemma time_column_no_Text: "\<not> list_ex is_text cs \<Longrightarrow> \<exists>col. time_column cs = Inr col"
  by (simp add: time_column_def)

lemma dropna_all_None [simp]: "dropna (map (\<lambda>i. None) xs) = []"
  by (induction xs) simp_all

text \<open>A column of strings with no line to subtract on: the mean of no interval is NaN.\<close>

lemma compute_Text_apart:
  assumes "list_ex is_text (map fst data)" and "\<not> adjacent_present (map fst data)"
  shows "compute data = Inl ValueError"
proof -
  let ?col = "map (\<lambda>c. None :: real option) (map fst data)"
  have col: "time_column (map fst data) = Inr ?col"
    using assms by (simp add: time_column_def)
  have r: "map (rr_at ?col) (nn_pairs (map snd data)) = map (\<lambda>i. None) (nn_pairs (map snd data))"
    using nn_pairs_bound[of _ "map snd data"] by (auto simp: rr_at_def)
  show ?thesis
    unfolding compute_by_position[OF col] r
    by (simp add: mean_def np_round_def py_int_def)
qed

lemma fst_other_type [simp]: "fst (other_type b) = fst b"
  by (cases b rule: other_type.cases) simp_all

lemma not_NN_right: "a @ ''?'' \<noteq> ''NN''"
  by (cases a) (auto simp: Cons_eq_append_conv)

lemma pair_type_other_type:
  assumes "Suc i < length data"
  shows "pair_type (map snd (map other_type data)) i = Some ''NN''
     \<longleftrightarrow> pair_type (map snd data) i = Some ''NN''"
proof -
  obtain t1 y1 where d1: "data ! i = (t1, y1)" by (cases "data ! i")
  obtain t2 y2 where d2: "data ! Suc i = (t2, y2)" by (cases "data ! Suc i")
  from assms d1 d2 show ?thesis
    by (cases y1; cases y2) (simp_all add: pair_type_def not_NN_right)
qed

lemma nn_pairs_other_type: "nn_pairs (map snd (map other_type data)) = nn_pairs (map snd data)"
  unfolding nn_pairs_def
  by (rule filter_cong) (auto simp: pair_type_other_type[simplified])

lemma nn_successive_other_type:
  "nn_successive (map snd (map other_type data)) = nn_successive (map snd data)"
  unfolding nn_successive_def nn_pairs_other_type
  by (rule filter_cong) (auto simp: pair_type_other_type[simplified])

lemma compute_other_type: "compute (map other_type data) = compute data"
proof (cases "time_column (map fst data)")
  case (Inl e)
  then show ?thesis by (simp add: compute_def o_def)
next
  case (Inr col)
  then have "time_column (map fst (map other_type data)) = Inr col" by (simp add: o_def)
  from compute_by_position[OF this] compute_by_position[OF Inr] show ?thesis
    by (simp only: nn_pairs_other_type nn_successive_other_type)
qed

section \<open>Float64 values used below\<close>

lemma np_round_1: "np_round (Fin v) 1 = Fin (of_int (rint (fl (v * 10))) / 10)"
  by (simp add: np_round_def fmul_def)

lemma np_round_Suc_0: "np_round (Fin v) (Suc 0) = Fin (of_int (rint (fl (v * 10))) / 10)"
  by (simp add: np_round_def fmul_def)

lemma fl_four_fifths: "fl (4 / 5) = 7205759403792794 / 2 ^ 53"
  using fl_eval[of "4 / 5" 53 "7205759403792794"] by (simp add: rint_def)

lemma fl_one_fifth: "fl (1 / 5) = 7205759403792794 / 2 ^ 55"
  using fl_eval[of "1 / 5" 55 "7205759403792794"] by (simp add: rint_def)

lemma rate_800: "np_round (Fin (fmul (fdiv 1000 800) 60)) 1 = Fin 75"
proof -
  have e1: "fdiv 1000 800 = 5 / 4"
    using fl_eval[of "1000 / 800" 52 "5629499534213120"] by (simp add: fdiv_def rint_def)
  have e2: "fmul (5 / 4) 60 = 75"
    by (simp add: fmul_def fl_numeral)
  have e3: "fl (75 * 10) = 750"
    by (simp add: fl_numeral)
  have e4: "rint 750 = 750"
    using rint_of_int[of 750] by simp
  show ?thesis
    by (simp only: np_round_1 e1 e2 e3 e4) simp
qed

lemma rate_1: "np_round (Fin (fmul (fdiv 1000 1) 60)) 1 = Fin 60000"
proof -
  have e1: "fdiv 1000 1 = 1000"
    by (simp add: fdiv_def fl_numeral)
  have e2: "fmul 1000 60 = 60000"
    by (simp add: fmul_def fl_numeral)
  have e3: "fl (60000 * 10) = 600000"
    by (simp add: fl_numeral)
  have e4: "rint 600000 = 600000"
    using rint_of_int[of 600000] by simp
  show ?thesis
    by (simp only: np_round_1 e1 e2 e3 e4) simp
qed



section \<open>Files with no "NN" interval\<close>

text \<open>
  C1. Claimed: with fewer than 500 "NN" pairs the function returns a record with the six
  numbers null, the file name and the exact count. On a file of three beats N, V, N the
  count is 0: the mean of no interval is NaN, \<^verbatim>\<open>int\<close> of it raises ValueError at line 113,
  before the test of line 124, and the function returns \<^verbatim>\<open>None\<close> instead of the record
  that the branch of lines 137 to 144 would fill.
\<close>

theorem no_nn_pair_returns_none:
  "length (nn_pairs (map snd [(Num 0, Some ''N''), (Num 800, Some ''V''), (Num 1600, Some ''N'')])) = 0
   \<and> compute [(Num 0, Some ''N''), (Num 800, Some ''V''), (Num 1600, Some ''N'')] = Inl ValueError
   \<and> calculate_HRV_metrics
        [''f1.csv'' \<mapsto> [(Num 0, Some ''N''), (Num 800, Some ''V''), (Num 1600, Some ''N'')]]
        ''f1.csv'' = None"
  by (simp add: calculate_HRV_metrics_def compute_def time_column_def hrv_frame_def nn_rows_def mean_def
      np_round_def py_int_def nn_pairs_def pair_type_def)

text \<open>
  C3. Claimed: the empty beat sequence raises no error and gives a record with \<open>n = 0\<close>.
  The file with a header and no line has no interval either: line 113 raises ValueError,
  the handler of line 156 prints it, and the caller gets \<^verbatim>\<open>None\<close>.
\<close>

theorem empty_file_returns_none:
  "compute [] = Inl ValueError \<and> calculate_HRV_metrics [''f1.csv'' \<mapsto> []] ''f1.csv'' = None"
  by (simp add: calculate_HRV_metrics_def compute_def time_column_def hrv_frame_def nn_rows_def mean_def
      np_round_def py_int_def)

section \<open>The mean rate\<close>

text \<open>
  C9. The division of line 114 is unguarded. Whenever a file has at least one "NN"
  interval and the mean of these intervals is below one half in absolute value, the
  rounded mean is 0, \<^verbatim>\<open>1000/mean_nn\<close> raises ZeroDivisionError, the handler catches it and
  the function returns \<^verbatim>\<open>None\<close>: no record for that file.
\<close>

theorem zero_mean_interval_returns_none:
  assumes "dataset_dir file_in = Some data"
    and "map fst data = map Num ts"
    and "nn_pairs (map snd data) \<noteq> []"
    and "\<bar>nn_mean ts (map snd data)\<bar> < 1 / 2"
  shows "compute data = Inl ZeroDivisionError \<and> calculate_HRV_metrics dataset_dir file_in = None"
  using assms by (simp add: compute_numeric rint_small calculate_HRV_metrics_def)

theorem zero_mean_interval_returns_none_witness:
  "compute [(Num 0, Some ''N''), (Num (1 / 5), Some ''N'')] = Inl ZeroDivisionError
   \<and> calculate_HRV_metrics [''f1.csv'' \<mapsto> [(Num 0, Some ''N''), (Num (1 / 5), Some ''N'')]] ''f1.csv'' = None"
  using zero_mean_interval_returns_none[of "[''f1.csv'' \<mapsto> [(Num 0, Some ''N''), (Num (1 / 5), Some ''N'')]]"
      "''f1.csv''" "[(Num 0, Some ''N''), (Num (1 / 5), Some ''N'')]" "[0, 1 / 5]"]
  by (simp add: nn_pairs_def pair_type_def nn_mean_def interval_def fsub_def fl_one_fifth)




section \<open>The regular recording\<close>

text \<open>
  C2, as amended. The intervals are taken in the unit of the \<^verbatim>\<open>time\<close> column and the rate is
  \<^verbatim>\<open>(1000/mean_nn)*60\<close>, so the column is in milliseconds: 501 normal beats at the times
  0, 800, 1600, ... give 500 intervals, a mean interval of 800, a rate of 75.0 and zero
  for the four variability numbers.
\<close>

theorem regular_recording_ms:
  "calculate_HRV_metrics [''f1.csv'' \<mapsto> map (\<lambda>i. (Num (800 * real i), Some ''N'')) [0..<501]] ''f1.csv'' =
    Some \<lparr>filename = ''f1.csv'', n = 500, mean_nn = Some 800, mean_bpm = Some (Fin 75),
          sdnn = Some (Fin 0), rmssd = Some (Fin 0), pnn20 = Some (Fin 0), pnn50 = Some (Fin 0)\<rparr>"
proof -
  have f: "fl 800 = 800" by (simp add: fl_numeral)
  have r: "rint 800 = 800" using rint_of_int[of 800] by simp
  have "map (\<lambda>i. (Num (800 * real i), Some ''N'')) [0..<501] = regular_beats 800 500"
    by (simp add: regular_beats_def del: upt_Suc)
  then show ?thesis
    using regular_compute[of 500 800] rate_800
    by (simp add: calculate_HRV_metrics_def fill_results_def f r del: upt_Suc)
qed

text \<open>
  C2, as claimed: with the times 0, 0.8, 1.6, ... the mean interval is 0.8, which rounds
  to 1, and the rate is 60000: not 800 and 75.0.
\<close>

theorem regular_recording_seconds_counterexample:
  "calculate_HRV_metrics [''f1.csv'' \<mapsto> map (\<lambda>i. (Num ((4 / 5) * real i), Some ''N'')) [0..<501]] ''f1.csv'' =
    Some \<lparr>filename = ''f1.csv'', n = 500, mean_nn = Some 1, mean_bpm = Some (Fin 60000),
          sdnn = Some (Fin 0), rmssd = Some (Fin 0), pnn20 = Some (Fin 0), pnn50 = Some (Fin 0)\<rparr>"
proof -
  have r: "rint (fl (4 / 5)) = 1" by (simp add: fl_four_fifths rint_def)
  have "map (\<lambda>i. (Num ((4 / 5) * real i), Some ''N'')) [0..<501] = regular_beats (4 / 5) 500"
    by (simp add: regular_beats_def del: upt_Suc)
  then show ?thesis
    using regular_compute[of 500 "4 / 5"] rate_1
    by (simp add: calculate_HRV_metrics_def fill_results_def r del: upt_Suc)
qed

section \<open>The percentages of large successive differences\<close>


lemma pnn_499_of_500: "np_round (Fin (fdiv 49900 500)) 1 = Fin (499 / 5)"
proof -
  have e1: "fdiv 49900 500 = 7022800668930867 / 2 ^ 46"
    using fl_eval[of "49900 / 500" 46 "7022800668930867"] by (simp add: fdiv_def rint_def)
  have e3: "fl (7022800668930867 / 2 ^ 46 * 10) = 8778500836163584 / 2 ^ 43"
    using fl_eval[of "7022800668930867 / 2 ^ 46 * 10" 43 "8778500836163584"]
    by (simp add: rint_def)
  have e4: "rint (8778500836163584 / 2 ^ 43) = 998"
    by (simp add: rint_def)
  show ?thesis
    by (simp only: np_round_1 e1 e3 e4) simp
qed



lemma nn_mean_ge_one:
  assumes "nn_pairs tys \<noteq> []" and "list_all (\<lambda>i. 1 \<le> interval ts i) (nn_pairs tys)"
  shows "1 \<le> nn_mean ts tys"
proof -
  have "real (length (nn_pairs tys)) \<le> sum_list (map (interval ts) (nn_pairs tys))"
    using assms(2) by (intro sum_list_ge_length) (simp add: list_all_iff)
  moreover have "0 < real (length (nn_pairs tys))"
    using assms(1) by simp
  ultimately show ?thesis
    unfolding nn_mean_def by (simp add: field_simps)
qed





text \<open>
  C6. Whenever the function returns a record in which \<^verbatim>\<open>pnn50\<close> and \<^verbatim>\<open>pnn20\<close> are both present,
  \<^verbatim>\<open>pnn50\<close> is at most \<^verbatim>\<open>pnn20\<close>. In the witness 501 beats with intervals alternating
  between 815 and 785 give 0 and 99.8.
\<close>

theorem pnn50_le_pnn20:
  assumes "calculate_HRV_metrics dataset_dir file_in = Some r"
    and "pnn50 r = Some a" and "pnn20 r = Some b"
  shows "fle a b"
proof -
  from assms(1) obtain data v where v: "compute data = Inr v" and r: "r = fill_results file_in v"
    by (auto simp: calculate_HRV_metrics_def split: option.splits sum.splits)
  from r assms(2,3) have ab: "a = val_pnn50 v" "b = val_pnn20 v"
    by (auto simp: fill_results_def split: if_splits)
  from compute_pnn[OF v] obtain df k where "val_pnn50 v = pnn 50 df k" "val_pnn20 v = pnn 20 df k"
    by blast
  with ab show ?thesis
    using pnn_antimono[of 20 50 df k] by simp
qed

theorem pnn50_le_pnn20_witness:
  "\<exists>r. calculate_HRV_metrics [''f1.csv'' \<mapsto> alternating_beats 800 15 500] ''f1.csv'' = Some r
      \<and> pnn50 r = Some (Fin 0) \<and> pnn20 r = Some (Fin (499 / 5))
      \<and> fle (Fin 0) (Fin (499 / 5))"
proof -
  have r: "rint 800 = 800" using rint_of_int[of 800] by simp
  have ex: "fl (800 + 15) = 800 + 15" "fl (800 - 15) = 800 - 15" "fl (2 * 15) = 2 * 15"
    by (simp_all add: fl_numeral)
  from alternating_compute[of 500 800 15, OF _ _ _ ex] r obtain v
    where v: "compute (alternating_beats 800 15 500) = Inr v" "val_n v = 500"
      "val_pnn50 v = Fin 0" "val_pnn20 v = Fin (499 / 5)"
    using pnn_499_of_500 by auto
  let ?r = "fill_results ''f1.csv'' v"
  have c: "calculate_HRV_metrics [''f1.csv'' \<mapsto> alternating_beats 800 15 500] ''f1.csv'' = Some ?r"
    by (simp add: calculate_HRV_metrics_def v)
  have p: "pnn50 ?r = Some (Fin 0)" "pnn20 ?r = Some (Fin (499 / 5))"
    by (simp_all add: fill_results_def v)
  from pnn50_le_pnn20[OF c p] c p show ?thesis by blast
qed

section \<open>The record\<close>

text \<open>
  C10. Whenever the function returns a record, its \<^verbatim>\<open>filename\<close> is the name it was called
  with and its \<^verbatim>\<open>n\<close> is the number of consecutive beats that are both of type "N", in the
  branch from 500 intervals on and in the branch below; the record has the eight fields
  of \<open>results\<close> in both. No type code is the empty string, which \<^verbatim>\<open>read_csv\<close> never delivers.
\<close>

theorem record_filename_and_count:
  assumes "dataset_dir file_in = Some data"
    and "list_all (\<lambda>ty. ty \<noteq> Some []) (map snd data)"
    and "calculate_HRV_metrics dataset_dir file_in = Some r"
  shows "filename r = file_in
       \<and> n r = length (filter (\<lambda>i. map snd data ! i = Some ''N'' \<and> map snd data ! Suc i = Some ''N'')
                        [0..<length data - 1])"
proof -
  from assms(1,3) obtain v where v: "compute data = Inr v" and r: "r = fill_results file_in v"
    by (auto simp: calculate_HRV_metrics_def split: sum.splits)
  note compute_n[OF v]
  moreover have "nn_pairs (map snd data) =
      filter (\<lambda>i. map snd data ! i = Some ''N'' \<and> map snd data ! Suc i = Some ''N'') [0..<length data - 1]"
    unfolding nn_pairs_def
    using pair_type_both_N[OF assms(2)] by (auto intro!: filter_cong)
  ultimately show ?thesis
    using r by (simp add: fill_results_def)
qed

lemma below_500_record:
  assumes "dataset_dir file_in = Some data"
    and "map fst data = map Num ts"
    and "nn_pairs (map snd data) \<noteq> []"
    and "length (nn_pairs (map snd data)) < 500"
    and "rint (nn_mean ts (map snd data)) \<noteq> 0"
  shows "calculate_HRV_metrics dataset_dir file_in =
     Some \<lparr>filename = file_in, n = length (nn_pairs (map snd data)), mean_nn = None,
           mean_bpm = None, sdnn = None, rmssd = None, pnn20 = None, pnn50 = None\<rparr>"
  using assms by (simp add: calculate_HRV_metrics_def compute_numeric fill_results_def)

theorem record_filename_and_count_witness:
  "\<exists>r. calculate_HRV_metrics
         [''f1.csv'' \<mapsto> [(Num 0, Some ''N''), (Num 800, Some ''N''), (Num 1600, Some ''V''),
                          (Num 2400, Some ''N''), (Num 3200, Some ''N'')]] ''f1.csv'' = Some r
       \<and> filename r = ''f1.csv'' \<and> n r = 2"
proof -
  let ?d = "[(Num 0, Some ''N''), (Num 800, Some ''N''), (Num 1600, Some ''V''),
             (Num 2400, Some ''N''), (Num 3200, Some ''N'')]"
  let ?tys = "[Some ''N'', Some ''N'', Some ''V'', Some ''N'', Some ''N'']"
  let ?r = "\<lparr>filename = ''f1.csv'', n = 2, mean_nn = None, mean_bpm = None, sdnn = None,
             rmssd = None, pnn20 = None, pnn50 = None\<rparr>"
  have p: "nn_pairs ?tys = [0, 3]"
    by (simp add: nn_pairs_def pair_type_def)
  have m: "rint (nn_mean [0, 800, 1600, 2400, 3200] ?tys) = 800"
    using rint_of_int[of 800] by (simp add: nn_mean_def p interval_def fsub_def fl_numeral)
  have c: "calculate_HRV_metrics [''f1.csv'' \<mapsto> ?d] ''f1.csv'' = Some ?r"
    using below_500_record[of "[''f1.csv'' \<mapsto> ?d]" "''f1.csv''" ?d "[0, 800, 1600, 2400, 3200]"]
    by (simp add: p m)
  from record_filename_and_count[OF _ _ c, of ?d]
  have "filename ?r = ''f1.csv'' \<and> n ?r = 2"
    by simp
  with c show ?thesis by blast
qed

section \<open>Malformed fields\<close>

lemma py_int_cases: "py_int x = Inl ValueError \<or> (\<exists>m. py_int x = Inr m)"
  by (cases x) (simp_all add: py_int_def)

lemma compute_outcomes:
  assumes "\<not> list_ex is_text (map fst data)"
  shows "compute data = Inl ValueError \<or> compute data = Inl ZeroDivisionError
       \<or> (\<exists>v. compute data = Inr v \<and> val_n v = length (nn_pairs (map snd data)))"
proof -
  from time_column_no_Text[OF assms] obtain col where col: "time_column (map fst data) = Inr col"
    by blast
  let ?m = "py_int (np_round (mean (map (rr_at col) (nn_pairs (map snd data)))) 0)"
  from py_int_cases[of "np_round (mean (map (rr_at col) (nn_pairs (map snd data)))) 0"]
  consider "?m = Inl ValueError" | m where "?m = Inr m"
    by blast
  then show ?thesis
  proof cases
    case 1
    then show ?thesis
      unfolding compute_by_position[OF col] by simp
  next
    case 2
    then show ?thesis
      unfolding compute_by_position[OF col] by (cases "m = 0") simp_all
  qed
qed

text \<open>
  C7, as amended. There is no DataError. A file with a \<^verbatim>\<open>time\<close> that is text gives
  \<^verbatim>\<open>None\<close>: line 89 raises TypeError where a beat and the next both have a time, and the
  function catches it itself. A \<^verbatim>\<open>time\<close> that is
  missing raises nothing of its own: the file is processed like any other, \<open>n\<close> counts the
  "NN" pairs by their types alone, and only the ValueError of line 113 or the
  ZeroDivisionError of line 114 can end the computation. A missing \<^verbatim>\<open>type\<close> raises nothing
  either: the beat counts as a beat that is not of type "N", and the result is the one of
  the file with another type code in its place.
\<close>

theorem malformed_fields_no_data_error:
  assumes "dataset_dir file_in = Some data"
  shows "(list_ex is_text (map fst data) \<longrightarrow>
            calculate_HRV_metrics dataset_dir file_in = None
            \<and> (adjacent_present (map fst data) \<longrightarrow> compute data = Inl TypeError))
       \<and> (\<not> list_ex is_text (map fst data) \<longrightarrow>
            compute data = Inl ValueError \<or> compute data = Inl ZeroDivisionError
            \<or> (\<exists>v. compute data = Inr v \<and> val_n v = length (nn_pairs (map snd data))))
       \<and> calculate_HRV_metrics (dataset_dir(file_in \<mapsto> map other_type data)) file_in
           = calculate_HRV_metrics dataset_dir file_in"
proof -
  have "calculate_HRV_metrics dataset_dir file_in = None
      \<and> (adjacent_present (map fst data) \<longrightarrow> compute data = Inl TypeError)"
    if "list_ex is_text (map fst data)"
  proof (cases "adjacent_present (map fst data)")
    case True
    with that assms show ?thesis
      by (simp add: calculate_HRV_metrics_def compute_def time_column_Text)
  next
    case False
    with that assms show ?thesis
      by (simp add: calculate_HRV_metrics_def compute_Text_apart)
  qed
  moreover have "calculate_HRV_metrics (dataset_dir(file_in \<mapsto> map other_type data)) file_in
           = calculate_HRV_metrics dataset_dir file_in"
    using assms by (simp add: calculate_HRV_metrics_def compute_other_type)
  ultimately show ?thesis
    using compute_outcomes[of data] by blast
qed

theorem malformed_fields_no_data_error_witness:
  "compute [(Num 0, Some ''N''), (Text ''abc'', Some ''N'')] = Inl TypeError
   \<and> calculate_HRV_metrics [''f1.csv'' \<mapsto> [(Num 0, Some ''N''), (Text ''abc'', Some ''N'')]] ''f1.csv'' = None
   \<and> (\<exists>v. compute [(Num 0, Some ''N''), (Missing, Some ''N''), (Num 1600, Some ''N''),
                    (Num 2400, Some ''N'')] = Inr v \<and> val_n v = 3)
   \<and> calculate_HRV_metrics
        [''f2.csv'' \<mapsto> [(Num 0, Some ''N''), (Num 800, Some ''N''), (Num 1600, Some ''?'')]] ''f2.csv''
     = calculate_HRV_metrics
        [''f2.csv'' \<mapsto> [(Num 0, Some ''N''), (Num 800, Some ''N''), (Num 1600, None)]] ''f2.csv''"
proof -
  let ?d1 = "[(Num 0, Some ''N''), (Text ''abc'', Some ''N'')]"
  let ?d2 = "[(Num 0, Some ''N''), (Num 800, Some ''N''), (Num 1600, None)]"
  let ?d3 = "[(Num 0, Some ''N''), (Missing, Some ''N''), (Num 1600, Some ''N''),
              (Num 2400, Some ''N'')]"
  have p: "nn_pairs [Some ''N'', Some ''N'', Some ''N'', Some ''N''] = [0, 1, 2]"
    by (simp add: nn_pairs_def pair_type_def)
  have i: "rint 800 = 800" using rint_of_int[of 800] by simp
  have ok: "compute ?d3 \<noteq> Inl ValueError \<and> compute ?d3 \<noteq> Inl ZeroDivisionError"
    by (simp add: compute_by_position[of _ "[Some 0, None, Some 1600, Some 2400]"] time_column_def p
        rr_at_def fsub_def fl_numeral mean_def np_round_def py_int_def i)
  from malformed_fields_no_data_error[of "[''f3.csv'' \<mapsto> ?d3]" "''f3.csv''" ?d3] ok
  have 3: "\<exists>v. compute ?d3 = Inr v \<and> val_n v = 3"
    by (auto simp: p eval_nat_numeral)
  from malformed_fields_no_data_error[of "[''f1.csv'' \<mapsto> ?d1]" "''f1.csv''" ?d1]
  have 1: "compute ?d1 = Inl TypeError \<and> calculate_HRV_metrics [''f1.csv'' \<mapsto> ?d1] ''f1.csv'' = None"
    by simp
  from malformed_fields_no_data_error[of "[''f2.csv'' \<mapsto> ?d2]" "''f2.csv''" ?d2]
  have 2: "calculate_HRV_metrics
        [''f2.csv'' \<mapsto> [(Num 0, Some ''N''), (Num 800, Some ''N''), (Num 1600, Some ''?'')]] ''f2.csv''
     = calculate_HRV_metrics [''f2.csv'' \<mapsto> ?d2] ''f2.csv''"
    by simp
  from 1 2 3 show ?thesis by blast
qed

text \<open>
  C7, as claimed: a file whose last beat has no type and a file whose second beat has no
  time give ordinary records, and a file with a \<^verbatim>\<open>time\<close> that is text gives \<^verbatim>\<open>None\<close>; in no
  case is an error signalled to the caller.
\<close>

theorem malformed_fields_counterexample:
  "calculate_HRV_metrics
     [''f1.csv'' \<mapsto> [(Num 0, Some ''N''), (Num 800, Some ''N''), (Num 1600, None)]] ''f1.csv''
   = Some \<lparr>filename = ''f1.csv'', n = 1, mean_nn = None, mean_bpm = None, sdnn = None,
           rmssd = None, pnn20 = None, pnn50 = None\<rparr>
   \<and> calculate_HRV_metrics
     [''f1.csv'' \<mapsto> [(Num 0, Some ''N''), (Text ''abc'', Some ''N'')]] ''f1.csv'' = None
   \<and> calculate_HRV_metrics
     [''f1.csv'' \<mapsto> [(Num 0, Some ''N''), (Missing, Some ''N''), (Num 1600, Some ''N''),
                      (Num 2400, Some ''N'')]] ''f1.csv''
   = Some \<lparr>filename = ''f1.csv'', n = 3, mean_nn = None, mean_bpm = None, sdnn = None,
           rmssd = None, pnn20 = None, pnn50 = None\<rparr>"
proof -
  have i: "rint 800 = 800" using rint_of_int[of 800] by simp
  have p1: "nn_pairs [Some ''N'', Some ''N'', None] = [0]"
    by (simp add: nn_pairs_def pair_type_def)
  have p3: "nn_pairs [Some ''N'', Some ''N'', Some ''N'', Some ''N''] = [0, 1, 2]"
    by (simp add: nn_pairs_def pair_type_def)
  have 1: "calculate_HRV_metrics
     [''f1.csv'' \<mapsto> [(Num 0, Some ''N''), (Num 800, Some ''N''), (Num 1600, None)]] ''f1.csv''
   = Some \<lparr>filename = ''f1.csv'', n = 1, mean_nn = None, mean_bpm = None, sdnn = None,
           rmssd = None, pnn20 = None, pnn50 = None\<rparr>"
    by (simp add: calculate_HRV_metrics_def
        compute_by_position[of _ "[Some 0, Some 800, Some 1600]"] time_column_def p1
        rr_at_def fsub_def fl_numeral mean_def np_round_def py_int_def i fill_results_def)
  have 2: "calculate_HRV_metrics
     [''f1.csv'' \<mapsto> [(Num 0, Some ''N''), (Text ''abc'', Some ''N'')]] ''f1.csv'' = None"
    by (simp add: calculate_HRV_metrics_def compute_def time_column_def)
  have 3: "calculate_HRV_metrics
     [''f1.csv'' \<mapsto> [(Num 0, Some ''N''), (Missing, Some ''N''), (Num 1600, Some ''N''),
                      (Num 2400, Some ''N'')]] ''f1.csv''
   = Some \<lparr>filename = ''f1.csv'', n = 3, mean_nn = None, mean_bpm = None, sdnn = None,
           rmssd = None, pnn20 = None, pnn50 = None\<rparr>"
    by (simp add: calculate_HRV_metrics_def
        compute_by_position[of _ "[Some 0, None, Some 1600, Some 2400]"] time_column_def p3
        rr_at_def fsub_def fl_numeral mean_def np_round_def py_int_def i fill_results_def)
  from 1 2 3 show ?thesis by blast
qed

section \<open>The batch\<close>

text \<open>
  C8, as amended. The loop never aborts: the list handed to \<^verbatim>\<open>pd.DataFrame\<close> has one entry
  for each name ending in \<^verbatim>\<open>.csv\<close>, in the order of the input, and the entry is what
  \<^verbatim>\<open>calculate_HRV_metrics\<close> returned for that name: \<^verbatim>\<open>None\<close> for a file that failed.
\<close>

theorem batch_one_entry_per_csv_name:
  "process_HRV_files dataset_dir file_list_in =
     map (calculate_HRV_metrics dataset_dir) (filter (\<lambda>file. endswith file ''.csv'') file_list_in)
   \<and> length (process_HRV_files dataset_dir file_list_in) =
     length (filter (\<lambda>file. endswith file ''.csv'') file_list_in)"
  by (simp add: process_HRV_files_def hrv_loop_append)

text \<open>
  C8, as claimed: in a batch of two files whose first has a \<^verbatim>\<open>time\<close> that is no number,
  the entry of the first is \<^verbatim>\<open>None\<close>: no record, and nothing that carries its name.
\<close>

theorem batch_failed_subject_counterexample:
  "process_HRV_files
     [''a.csv'' \<mapsto> [(Text ''abc'', Some ''N''), (Num 800, Some ''N'')],
      ''b.csv'' \<mapsto> [(Num 0, Some ''N''), (Num 800, Some ''N'')]]
     [''a.csv'', ''notes.txt'', ''b.csv'']
   = [None,
      Some \<lparr>filename = ''b.csv'', n = 1, mean_nn = None, mean_bpm = None, sdnn = None,
            rmssd = None, pnn20 = None, pnn50 = None\<rparr>]"
proof -
  have i: "rint 800 = 800" using rint_of_int[of 800] by simp
  have p: "nn_pairs [Some ''N'', Some ''N''] = [0]"
    by (simp add: nn_pairs_def pair_type_def)
  have a: "compute [(Text ''abc'', Some ''N''), (Num 800, Some ''N'')] = Inl TypeError"
    by (simp add: compute_def time_column_def)
  have b: "compute [(Num 0, Some ''N''), (Num 800, Some ''N'')] =
      Inr \<lparr>val_n = 1, val_mean_nn = 800,
           val_mean_bpm = np_round (Fin (fmul (fdiv 1000 800) 60)) 1,
           val_sdnn = np_round (std [Some 800]) 1,
           val_rmssd = np_round (np_sqrt (mean [])) 1,
           val_pnn50 = np_round (Fin (fdiv 0 1)) 1,
           val_pnn20 = np_round (Fin (fdiv 0 1)) 1\<rparr>"
    by (simp add: compute_by_position[of _ "[Some 0, Some 800]"] time_column_def p nn_successive_def
        rr_at_def fsub_def fl_numeral mean_def np_round_def[of "Fin 800"] py_int_def i
        count_abs_gt_def)
  show ?thesis
    by (simp add: process_HRV_files_def endswith_def calculate_HRV_metrics_def a b
        fill_results_def)
qed

section \<open>Further properties\<close>

text \<open>
  X1. The branch of lines 136 to 144: a file in which every time is a number, with at
  least one and fewer than 500 "NN" intervals, each of them at least 1, gives the record
  with the file name, the count and the six numbers null.
\<close>

theorem below_500_all_null:
  assumes "dataset_dir file_in = Some data"
    and "map fst data = map Num ts"
    and "nn_pairs (map snd data) \<noteq> []"
    and "length (nn_pairs (map snd data)) < 500"
    and "list_all (\<lambda>i. 1 \<le> interval ts i) (nn_pairs (map snd data))"
  shows "calculate_HRV_metrics dataset_dir file_in =
     Some \<lparr>filename = file_in, n = length (nn_pairs (map snd data)), mean_nn = None,
           mean_bpm = None, sdnn = None, rmssd = None, pnn20 = None, pnn50 = None\<rparr>"
proof -
  from nn_mean_ge_one[OF assms(3,5)] have "1 \<le> rint (nn_mean ts (map snd data))"
    by (rule rint_ge_one)
  then have "rint (nn_mean ts (map snd data)) \<noteq> 0"
    by simp
  with assms(1-4) show ?thesis
    by (rule below_500_record)
qed

theorem below_500_all_null_witness:
  "calculate_HRV_metrics
     [''f1.csv'' \<mapsto> [(Num 0, Some ''N''), (Num 790, Some ''N''), (Num 1600, Some ''N'')]] ''f1.csv''
   = Some \<lparr>filename = ''f1.csv'', n = 2, mean_nn = None,
           mean_bpm = None, sdnn = None, rmssd = None, pnn20 = None, pnn50 = None\<rparr>"
proof -
  have p: "nn_pairs [Some ''N'', Some ''N'', Some ''N''] = [0, 1]"
    by (simp add: nn_pairs_def pair_type_def)
  show ?thesis
    using below_500_all_null[of "[''f1.csv'' \<mapsto> [(Num 0, Some ''N''), (Num 790, Some ''N''), (Num 1600, Some ''N'')]]"
      "''f1.csv''" "[(Num 0, Some ''N''), (Num 790, Some ''N''), (Num 1600, Some ''N'')]" "[0, 790, 1600]"]
    by (simp add: p interval_def fsub_def fl_numeral)
qed

text \<open>
  X2. A reported \<^verbatim>\<open>sdnn\<close> of a file in which every time is a number is a number and is
  not negative.
\<close>

theorem sdnn_nonnegative:
  assumes "dataset_dir file_in = Some data"
    and "map fst data = map Num ts"
    and "calculate_HRV_metrics dataset_dir file_in = Some r"
    and "sdnn r = Some s"
  shows "\<exists>x. s = Fin x \<and> 0 \<le> x"
proof -
  from assms(1,3) obtain v where v: "compute data = Inr v" and r: "r = fill_results file_in v"
    by (auto simp: calculate_HRV_metrics_def split: sum.splits)
  from r assms(4) have n: "500 \<le> val_n v" and s: "s = val_sdnn v"
    by (auto simp: fill_results_def split: if_splits)
  let ?col = "map (\<lambda>i. Some (interval ts i)) (nn_pairs (map snd data))"
  from v have vs: "val_sdnn v = np_round (std ?col) 1"
    by (auto simp: compute_numeric[OF assms(2)] split: if_splits)
  from n compute_n[OF v] have "2 \<le> length (nn_pairs (map snd data))"
    by simp
  from std_nonneg[OF this] obtain y where y: "std ?col = Fin y" "0 \<le> y"
    by blast
  have "fl 0 \<le> fl (y * 10)"
    using y(2) by (intro fl_mono) simp
  then have "0 \<le> rint (fl (y * 10))"
    by (intro rint_nonneg) simp
  then have "0 \<le> real_of_int (rint (fl (y * 10))) / 10"
    by simp
  moreover from y vs s have "s = Fin (real_of_int (rint (fl (y * 10))) / 10)"
    by (simp add: np_round_def fmul_def)
  ultimately show ?thesis
    by blast
qed

theorem sdnn_nonnegative_witness:
  "\<exists>r. calculate_HRV_metrics [''f1.csv'' \<mapsto> regular_beats 800 500] ''f1.csv'' = Some r
     \<and> sdnn r = Some (Fin 0) \<and> (0::real) \<le> 0"
proof -
  have f: "fl 800 = 800" by (simp add: fl_numeral)
  have i: "rint 800 = 800" using rint_of_int[of 800] by simp
  let ?v = "\<lparr>val_n = 500, val_mean_nn = 800,
          val_mean_bpm = np_round (Fin (fmul (fdiv 1000 (of_int 800)) 60)) 1,
          val_sdnn = Fin 0, val_rmssd = Fin 0, val_pnn50 = Fin 0, val_pnn20 = Fin 0\<rparr>"
  have v: "compute (regular_beats 800 500) = Inr ?v"
    using regular_compute[of 500 800] by (simp add: f i)
  let ?r = "fill_results ''f1.csv'' ?v"
  have c: "calculate_HRV_metrics [''f1.csv'' \<mapsto> regular_beats 800 500] ''f1.csv'' = Some ?r"
    by (simp add: calculate_HRV_metrics_def v)
  have p: "sdnn ?r = Some (Fin 0)"
    by (simp add: fill_results_def)
  from sdnn_nonnegative[OF _ regular_fst c p] c p show ?thesis by auto
qed

text \<open>
  X3. The entries of a batch do not depend on the names around them: the list of a
  concatenated batch is the concatenation of the lists.
\<close>

theorem batch_append:
  "process_HRV_files dataset_dir (xs @ ys) =
     process_HRV_files dataset_dir xs @ process_HRV_files dataset_dir ys"
  by (simp add: process_HRV_files_def hrv_loop_append)

end
